theory Spec2Isabelle
  imports Complex_Main
begin

section \<open>The Aurora Vision inverter adapter\<close>

text \<open>
  A shallow embedding of \<^verbatim>\<open>quartz_solar_forecast/inverters/auroravision.py\<close>:
  \<^verbatim>\<open>authenticate_aurora\<close>, \<^verbatim>\<open>process_aurora_data\<close> and
  \<^verbatim>\<open>get_aurora_vision_data\<close>. Python exceptions are values of \<open>pyerror\<close>,
  a function that may raise returns \<open>pyerror + 'a\<close> (\<open>Inl\<close> the exception), and the
  process environment and the vendor's server are an explicit \<open>world\<close> that is passed
  through every call.
\<close>

subsection \<open>Exceptions\<close>

datatype pyerror =
    NameError string
  | KeyError string
  | TypeError
  | ValueError
  | AttributeError
  | OverflowError
  | JSONDecodeError
  | Exception string

subsection \<open>Parsed JSON\<close>

text \<open>
  What \<^verbatim>\<open>json.loads\<close> returns. A dict is an association list in insertion order whose
  lookup takes the first binding of a key. Python floats are idealised as rationals:
  rounding, infinities and NaN are outside the model; the quotients the theorems below
  evaluate (\<open>240 / 24\<close> and \<open>0 / 24\<close>) are exact in binary floating point as well.
  Strings are lists of 8-bit characters, so the model covers the strings whose code points
  are below 256; on these \<^verbatim>\<open>\d\<close> matches the ten ASCII digits only.
\<close>

datatype json =
    JNull
  | JBool bool
  | JInt int
  | JFloat rat
  | JString string
  | JArray "json list"
  | JObject "(string \<times> json) list"

text \<open>\<^verbatim>\<open>d.get(key, default)\<close> on a dict.\<close>

definition dict_get :: "(string \<times> json) list \<Rightarrow> string \<Rightarrow> json \<Rightarrow> json" where
  "dict_get kvs k dflt = (case map_of kvs k of None \<Rightarrow> dflt | Some v \<Rightarrow> v)"

text \<open>\<^verbatim>\<open>x.get(key, default)\<close> on any parsed value: only a dict has the method.\<close>

definition py_get :: "json \<Rightarrow> string \<Rightarrow> json \<Rightarrow> pyerror + json" where
  "py_get x k dflt = (case x of JObject kvs \<Rightarrow> Inr (dict_get kvs k dflt) | _ \<Rightarrow> Inl AttributeError)"

text \<open>
  \<^verbatim>\<open>x[key]\<close> with a string key: a dict raises KeyError when the key is missing; a list
  or a string takes integer indices only, and the other values are not subscriptable.
\<close>

definition py_getitem :: "json \<Rightarrow> string \<Rightarrow> pyerror + json" where
  "py_getitem x k =
     (case x of
        JObject kvs \<Rightarrow> (case map_of kvs k of None \<Rightarrow> Inl (KeyError k) | Some v \<Rightarrow> Inr v)
      | _ \<Rightarrow> Inl TypeError)"

text \<open>
  \<^verbatim>\<open>for entry in x\<close>: a list yields its elements, a dict its keys, a string its
  characters; the other values are not iterable.
\<close>

definition py_iter :: "json \<Rightarrow> pyerror + json list" where
  "py_iter x =
     (case x of
        JArray es \<Rightarrow> Inr es
      | JObject kvs \<Rightarrow> Inr (map (\<lambda>kv. JString (fst kv)) kvs)
      | JString s \<Rightarrow> Inr (map (\<lambda>c. JString [c]) s)
      | _ \<Rightarrow> Inl TypeError)"

subsection \<open>Dates: \<^verbatim>\<open>datetime.strptime(s, "%Y%m%d")\<close>\<close>

datatype tzinfo = UTC

record pydatetime =
  dt_year :: nat
  dt_month :: nat
  dt_day :: nat
  dt_hour :: nat
  dt_minute :: nat
  dt_second :: nat
  dt_tzinfo :: "tzinfo option"

definition digit_val :: "char \<Rightarrow> nat option" where
  "digit_val c =
     map_of [(CHR ''0'', 0), (CHR ''1'', 1), (CHR ''2'', 2), (CHR ''3'', 3), (CHR ''4'', 4),
             (CHR ''5'', 5), (CHR ''6'', 6), (CHR ''7'', 7), (CHR ''8'', 8), (CHR ''9'', 9)] c"

text \<open>
  The library turns the format into the regular expression
  \<^verbatim>\<open>(?P<Y>\d\d\d\d)(?P<m>1[0-2]|0[1-9]|[1-9])(?P<d>3[0-1]|[1-2]\d|0[1-9]|[1-9]| [1-9])\<close>
  and matches it at the start of the string. Each group below lists the ways it can match
  a prefix, in the order in which the backtracking matcher tries them, as the value read
  and the rest of the string.
\<close>

definition re_Y :: "string \<Rightarrow> (nat \<times> string) list" where
  "re_Y s =
     (case s of
        a # b # c # d # r \<Rightarrow>
          (case (digit_val a, digit_val b, digit_val c, digit_val d) of
             (Some w, Some x, Some y, Some z) \<Rightarrow> [(1000 * w + 100 * x + 10 * y + z, r)]
           | _ \<Rightarrow> [])
      | _ \<Rightarrow> [])"

definition re_m :: "string \<Rightarrow> (nat \<times> string) list" where
  "re_m s =
     (case s of
        a # b # r \<Rightarrow>
          (case (digit_val a, digit_val b) of
             (Some x, Some y) \<Rightarrow>
               (if x = 1 \<and> y \<le> 2 then [(10 + y, r)] else []) @
               (if x = 0 \<and> 1 \<le> y then [(y, r)] else [])
           | _ \<Rightarrow> [])
      | _ \<Rightarrow> []) @
     (case s of
        a # r \<Rightarrow> (case digit_val a of Some x \<Rightarrow> (if 1 \<le> x then [(x, r)] else []) | None \<Rightarrow> [])
      | [] \<Rightarrow> [])"

definition re_d :: "string \<Rightarrow> (nat \<times> string) list" where
  "re_d s =
     (case s of
        a # b # r \<Rightarrow>
          (case (digit_val a, digit_val b) of
             (Some x, Some y) \<Rightarrow>
               (if x = 3 \<and> y \<le> 1 then [(30 + y, r)] else []) @
               (if 1 \<le> x \<and> x \<le> 2 then [(10 * x + y, r)] else []) @
               (if x = 0 \<and> 1 \<le> y then [(y, r)] else [])
           | _ \<Rightarrow> [])
      | _ \<Rightarrow> []) @
     (case s of
        a # r \<Rightarrow> (case digit_val a of Some x \<Rightarrow> (if 1 \<le> x then [(x, r)] else []) | None \<Rightarrow> [])
      | [] \<Rightarrow> []) @
     (case s of
        a # b # r \<Rightarrow>
          (if a = CHR '' '' then
             (case digit_val b of Some y \<Rightarrow> (if 1 \<le> y then [(y, r)] else []) | None \<Rightarrow> [])
           else [])
      | _ \<Rightarrow> [])"

text \<open>All matches of the whole expression, the matcher's own first.\<close>

definition re_Ymd :: "string \<Rightarrow> ((nat \<times> nat \<times> nat) \<times> string) list" where
  "re_Ymd s =
     concat (map (\<lambda>(y, r1).
       concat (map (\<lambda>(m, r2).
         map (\<lambda>(d, r3). ((y, m, d), r3)) (re_d r2)) (re_m r1))) (re_Y s))"

definition is_leap :: "nat \<Rightarrow> bool" where
  "is_leap y = (if y mod 100 = 0 then y mod 400 = 0 else y mod 4 = 0)"

definition days_in_month :: "nat \<Rightarrow> nat \<Rightarrow> nat" where
  "days_in_month y m =
     (if m = 2 then (if is_leap y then 29 else 28)
      else if m = 4 \<or> m = 6 \<or> m = 9 \<or> m = 11 then 30 else 31)"

text \<open>
  \<^verbatim>\<open>datetime.strptime(s, "%Y%m%d")\<close> on a string: ValueError when the expression does
  not match, when the match leaves part of the string unread, and when the fields are not
  a date of the calendar (the year 0, or a day past the end of the month). The result is
  naive midnight.
\<close>

definition strptime_Ymd :: "string \<Rightarrow> pyerror + pydatetime" where
  "strptime_Ymd s =
     (case re_Ymd s of
        [] \<Rightarrow> Inl ValueError
      | ((y, m, d), rest) # _ \<Rightarrow>
          if rest \<noteq> [] then Inl ValueError
          else if y < 1 \<or> days_in_month y m < d then Inl ValueError
          else Inr \<lparr>dt_year = y, dt_month = m, dt_day = d, dt_hour = 0, dt_minute = 0,
                    dt_second = 0, dt_tzinfo = None\<rparr>)"

text \<open>The first argument must be a \<^verbatim>\<open>str\<close>.\<close>

definition strptime :: "json \<Rightarrow> pyerror + pydatetime" where
  "strptime x = (case x of JString s \<Rightarrow> strptime_Ymd s | _ \<Rightarrow> Inl TypeError)"

subsection \<open>\<^verbatim>\<open>process_aurora_data\<close>\<close>

record production_record =
  timestamp :: pydatetime
  power_kw :: rat

text \<open>
  \<^verbatim>\<open>x / 24.0\<close>: an int is converted to a float first, which raises OverflowError from
  \<open>2^1024 - 2^970\<close> on; \<^verbatim>\<open>bool\<close> is a subclass of \<^verbatim>\<open>int\<close>; the other values have
  no division.
\<close>

definition div_24 :: "json \<Rightarrow> pyerror + rat" where
  "div_24 x =
     (case x of
        JInt n \<Rightarrow> (if \<bar>n\<bar> < 2 ^ 1024 - 2 ^ 970 then Inr (of_int n / 24) else Inl OverflowError)
      | JFloat q \<Rightarrow> Inr (q / 24)
      | JBool b \<Rightarrow> Inr ((if b then 1 else 0) / 24)
      | _ \<Rightarrow> Inl TypeError)"

text \<open>
  The dict display of the comprehension, for one entry: the \<^verbatim>\<open>"timestamp"\<close> value is
  evaluated before the \<^verbatim>\<open>"power_kw"\<close> value.
\<close>

definition process_entry :: "json \<Rightarrow> pyerror + production_record" where
  "process_entry entry =
     (case py_getitem entry ''date'' of
        Inl e \<Rightarrow> Inl e
      | Inr dv \<Rightarrow>
          (case strptime dv of
             Inl e \<Rightarrow> Inl e
           | Inr t \<Rightarrow>
               (case py_get entry ''dailyProduction'' (JInt 0) of
                  Inl e \<Rightarrow> Inl e
                | Inr p \<Rightarrow>
                    (case div_24 p of
                       Inl e \<Rightarrow> Inl e
                     | Inr q \<Rightarrow> Inr \<lparr>timestamp = t\<lparr>dt_tzinfo := Some UTC\<rparr>, power_kw = q\<rparr>))))"

text \<open>The comprehension: entries in order, the first exception ends it.\<close>

fun records_of :: "json list \<Rightarrow> pyerror + production_record list" where
  "records_of [] = Inr []"
| "records_of (entry # es) =
     (case process_entry entry of
        Inl e \<Rightarrow> Inl e
      | Inr r \<Rightarrow> (case records_of es of Inl e \<Rightarrow> Inl e | Inr rs \<Rightarrow> Inr (r # rs)))"

text \<open>The DataFrame is the list of its rows.\<close>

definition process_aurora_data :: "json \<Rightarrow> pyerror + production_record list" where
  "process_aurora_data data_json =
     (case py_get data_json ''result'' (JArray []) of
        Inl e \<Rightarrow> Inl e
      | Inr res \<Rightarrow> (case py_iter res of Inl e \<Rightarrow> Inl e | Inr es \<Rightarrow> records_of es))"

subsection \<open>The process environment and the vendor's server\<close>

record AuroraVisionSettings =
  api_key :: string
  user_id :: string
  password :: string
  plant_id :: string

text \<open>
  A header value is text; \<open>Basic_b64 s\<close> stands for \<^verbatim>\<open>"Basic "\<close> followed by the
  base64 encoding of \<open>s\<close>.
\<close>

datatype header_value = Plain string | Basic_b64 string

record request =
  req_method :: string
  req_host :: string
  req_url :: string
  req_headers :: "(string \<times> header_value) list"

text \<open>
  A response is its status and what \<^verbatim>\<open>json.loads(res.read().decode("utf-8"))\<close>
  evaluates to on its body: a parsed value or the exception raised.
\<close>

record response =
  res_status :: nat
  res_payload :: "pyerror + json"

text \<open>
  The trace records, in order, every entry into \<^verbatim>\<open>authenticate_aurora\<close> and every
  request sent. The server answers a request knowing the requests sent before it.
  A \<^verbatim>\<open>conn.request\<close> followed by \<^verbatim>\<open>conn.getresponse\<close> is one round trip that the
  server answers; transport failures are outside the model.
\<close>

datatype event = Call_authenticate_aurora | Http request

record world =
  environ :: "string \<rightharpoonup> string"
  server :: "request list \<Rightarrow> request \<Rightarrow> response"
  trace :: "event list"

fun requests_of :: "event list \<Rightarrow> request list" where
  "requests_of [] = []"
| "requests_of (Call_authenticate_aurora # evs) = requests_of evs"
| "requests_of (Http r # evs) = r # requests_of evs"

definition http_round_trip :: "request \<Rightarrow> world \<Rightarrow> response \<times> world" where
  "http_round_trip req w =
     (server w (requests_of (trace w)) req, w\<lparr>trace := trace w @ [Http req]\<rparr>)"

text \<open>
  The names the module binds at its top level: its imports and its own classes and
  functions. A name that is neither here nor a builtin raises NameError when the line that
  uses it runs.
\<close>

definition module_globals :: "string list" where
  "module_globals =
     [''http'', ''os'', ''Optional'', ''pd'', ''json'', ''datetime'', ''timedelta'', ''timezone'',
      ''AbstractInverter'', ''Field'', ''BaseSettings'', ''SettingsConfigDict'',
      ''AuroraVisionSettings'', ''AuroraVisionInverter'', ''authenticate_aurora'',
      ''process_aurora_data'', ''get_aurora_vision_data'']"

definition load_global :: "string \<Rightarrow> pyerror + unit" where
  "load_global name = (if name \<in> set module_globals then Inr () else Inl (NameError name))"

subsection \<open>Decimal text of a number\<close>

definition digit_char :: "nat \<Rightarrow> char" where
  "digit_char n = ''0123456789'' ! n"

fun str_nat :: "nat \<Rightarrow> string" where
  "str_nat n = (if n < 10 then [digit_char n] else str_nat (n div 10) @ [digit_char (n mod 10)])"

declare str_nat.simps [simp del]

definition zero_pad :: "nat \<Rightarrow> nat \<Rightarrow> string" where
  "zero_pad width n = replicate (width - length (str_nat n)) (CHR ''0'') @ str_nat n"

text \<open>
  The day of a \<^verbatim>\<open>pd.Timestamp\<close>; its time of day is not read. \<^verbatim>\<open>strftime("%Y%m%d")\<close>
  writes four, two and two digits (the years of a Timestamp have four digits).
\<close>

record pd_Timestamp =
  ts_year :: nat
  ts_month :: nat
  ts_day :: nat

definition strftime_Ymd :: "pd_Timestamp \<Rightarrow> string" where
  "strftime_Ymd ts = zero_pad 4 (ts_year ts) @ zero_pad 2 (ts_month ts) @ zero_pad 2 (ts_day ts)"

subsection \<open>\<^verbatim>\<open>authenticate_aurora\<close>\<close>

definition authenticate_request :: "AuroraVisionSettings \<Rightarrow> request" where
  "authenticate_request settings =
     \<lparr>req_method = ''GET'', req_host = ''api.auroravision.net'',
      req_url = ''/api/rest/authenticate'',
      req_headers = [(''X-AuroraVision-ApiKey'', Plain (api_key settings)),
                     (''Authorization'', Basic_b64 (user_id settings @ '':'' @ password settings))]\<rparr>"

text \<open>
  Line 36 reads the global \<^verbatim>\<open>base64\<close> before the request is sent.
  \<^verbatim>\<open>os.environ[...] = token\<close> takes a \<^verbatim>\<open>str\<close> only.
\<close>

definition authenticate_aurora ::
  "AuroraVisionSettings \<Rightarrow> world \<Rightarrow> (pyerror + string) \<times> world" where
  "authenticate_aurora settings w0 =
     (let w = w0\<lparr>trace := trace w0 @ [Call_authenticate_aurora]\<rparr> in
      case load_global ''base64'' of
        Inl e \<Rightarrow> (Inl e, w)
      | Inr _ \<Rightarrow>
          (case http_round_trip (authenticate_request settings) w of
             (res, w1) \<Rightarrow>
               if res_status res \<noteq> 200 then
                 (Inl (Exception (''Authentication failed with status '' @ str_nat (res_status res))), w1)
               else
                 (case res_payload res of
                    Inl e \<Rightarrow> (Inl e, w1)
                  | Inr data \<Rightarrow>
                      (case py_getitem data ''result'' of
                         Inl e \<Rightarrow> (Inl e, w1)
                       | Inr (JString token) \<Rightarrow>
                           (Inr token, w1\<lparr>environ := (environ w1)(''AURORA_ACCESS_TOKEN'' \<mapsto> token)\<rparr>)
                       | Inr _ \<Rightarrow> (Inl TypeError, w1)))))"

subsection \<open>\<^verbatim>\<open>get_aurora_vision_data\<close>\<close>

definition production_query :: "AuroraVisionSettings \<Rightarrow> pd_Timestamp \<Rightarrow> string \<Rightarrow> request" where
  "production_query settings ts token =
     (let start_date = strftime_Ymd ts; end_date = start_date in
      \<lparr>req_method = ''GET'', req_host = ''api.auroravision.net'',
       req_url = ''/api/rest/v1/plant/'' @ plant_id settings @ ''/dailyProduction?startDate=''
                 @ start_date @ ''&endDate='' @ end_date,
       req_headers = [(''X-AuroraVision-Token'', Plain token)]\<rparr>)"

text \<open>
  \<^verbatim>\<open>os.getenv\<close> returns \<^verbatim>\<open>None\<close> or the string stored; \<^verbatim>\<open>not token\<close> holds for
  \<^verbatim>\<open>None\<close> and for the empty string.
\<close>

definition get_aurora_vision_data ::
  "AuroraVisionSettings \<Rightarrow> pd_Timestamp \<Rightarrow> world \<Rightarrow> (pyerror + production_record list) \<times> world" where
  "get_aurora_vision_data settings ts w0 =
     (case (case environ w0 ''AURORA_ACCESS_TOKEN'' of
              None \<Rightarrow> authenticate_aurora settings w0
            | Some token \<Rightarrow>
                if token = [] then authenticate_aurora settings w0 else (Inr token, w0)) of
        (Inl e, w1) \<Rightarrow> (Inl e, w1)
      | (Inr token, w1) \<Rightarrow>
          (case http_round_trip (production_query settings ts token) w1 of
             (res, w2) \<Rightarrow>
               (case (if res_status res = 401 then
                        (case authenticate_aurora settings w2 of
                           (Inl e, w3) \<Rightarrow> (Inl e, w3)
                         | (Inr token', w3) \<Rightarrow>
                             (case http_round_trip (production_query settings ts token') w3 of
                                (res', w4) \<Rightarrow> (Inr res', w4)))
                      else (Inr res, w2)) of
                  (Inl e, w5) \<Rightarrow> (Inl e, w5)
                | (Inr res, w5) \<Rightarrow>
                    if res_status res \<noteq> 200 then
                      (Inl (Exception (''Failed to fetch data: HTTP '' @ str_nat (res_status res))), w5)
                    else
                      (case res_payload res of
                         Inl e \<Rightarrow> (Inl e, w5)
                       | Inr data_json \<Rightarrow> (process_aurora_data data_json, w5)))))"

text \<open>\<^verbatim>\<open>AuroraVisionInverter.get_data\<close>: the inverter holds its settings and delegates.\<close>

definition get_data ::
  "AuroraVisionSettings \<Rightarrow> pd_Timestamp \<Rightarrow> world \<Rightarrow> (pyerror + production_record list) \<times> world" where
  "get_data self_settings ts w = get_aurora_vision_data self_settings ts w"

subsection \<open>The specification's vocabulary\<close>

text \<open>
  The spec's words, for stating its sentences. A valid \<^verbatim>\<open>YYYYMMDD\<close> string: eight
  digits, read as a year of four digits and a month and a day of two digits each, that
  name a date of the calendar.
\<close>

definition digit_of :: "char \<Rightarrow> nat" where
  "digit_of c = (case digit_val c of Some v \<Rightarrow> v | None \<Rightarrow> 0)"

definition decimal :: "string \<Rightarrow> nat" where
  "decimal s = foldl (\<lambda>n c. 10 * n + digit_of c) 0 s"

definition eight_digits :: "string \<Rightarrow> bool" where
  "eight_digits s = (length s = 8 \<and> list_all (\<lambda>c. digit_val c \<noteq> None) s)"

definition spec_valid_date :: "string \<Rightarrow> bool" where
  "spec_valid_date s =
     (eight_digits s \<and>
      1 \<le> decimal (take 4 s) \<and>
      1 \<le> decimal (take 2 (drop 4 s)) \<and> decimal (take 2 (drop 4 s)) \<le> 12 \<and>
      1 \<le> decimal (drop 6 s) \<and>
      decimal (drop 6 s) \<le> days_in_month (decimal (take 4 s)) (decimal (take 2 (drop 4 s))))"

definition midnight :: "nat \<Rightarrow> nat \<Rightarrow> nat \<Rightarrow> tzinfo option \<Rightarrow> pydatetime" where
  "midnight y m d tz =
     \<lparr>dt_year = y, dt_month = m, dt_day = d, dt_hour = 0, dt_minute = 0, dt_second = 0,
      dt_tzinfo = tz\<rparr>"

text \<open>The day an eight-digit string names, at midnight.\<close>

definition spec_date :: "string \<Rightarrow> tzinfo option \<Rightarrow> pydatetime" where
  "spec_date s tz =
     midnight (decimal (take 4 s)) (decimal (take 2 (drop 4 s))) (decimal (drop 6 s)) tz"

text \<open>
  A production value the spec calls usable: absent, or a number (an integer that converts
  to a float, or a float).
\<close>

definition spec_production_ok :: "json option \<Rightarrow> bool" where
  "spec_production_ok v =
     (case v of
        None \<Rightarrow> True
      | Some (JInt n) \<Rightarrow> \<bar>n\<bar> < 2 ^ 1024 - 2 ^ 970
      | Some (JFloat q) \<Rightarrow> True
      | Some _ \<Rightarrow> False)"

text \<open>\<open>power_kw = dailyProduction / 24\<close>, with \<open>dailyProduction\<close> taken as 0 when absent.\<close>

definition spec_power_kw :: "json option \<Rightarrow> rat" where
  "spec_power_kw v =
     (case v of
        Some (JInt n) \<Rightarrow> of_int n / 24
      | Some (JFloat q) \<Rightarrow> q / 24
      | _ \<Rightarrow> 0)"

text \<open>A well-formed entry: an object with a valid date string and a usable production.\<close>

definition spec_well_formed :: "json \<Rightarrow> bool" where
  "spec_well_formed entry =
     (case entry of
        JObject kvs \<Rightarrow>
          (case map_of kvs ''date'' of
             Some (JString s) \<Rightarrow>
               spec_valid_date s \<and> spec_production_ok (map_of kvs ''dailyProduction'')
           | _ \<Rightarrow> False)
      | _ \<Rightarrow> False)"

text \<open>The Production Record of an entry: its day at UTC midnight and its mean power.\<close>

definition spec_record :: "json \<Rightarrow> production_record" where
  "spec_record entry =
     (case entry of
        JObject kvs \<Rightarrow>
          \<lparr>timestamp =
             spec_date (case map_of kvs ''date'' of Some (JString s) \<Rightarrow> s | _ \<Rightarrow> []) (Some UTC),
           power_kw = spec_power_kw (map_of kvs ''dailyProduction'')\<rparr>
      | _ \<Rightarrow> \<lparr>timestamp = spec_date [] (Some UTC), power_kw = 0\<rparr>)"

text \<open>
  A date written with the leading zero of the month and of the day optional: four digits
  of a year from 1 on, a month from 1 to 12 in one or two digits, and a day in one or two
  digits, or in a space and one digit, that exists in that month of that year. Every valid
  \<^verbatim>\<open>YYYYMMDD\<close> string is one; \<^verbatim>\<open>"202411"\<close> and \<^verbatim>\<open>"2024 1"\<close> are others.
  \<open>spec_lenient_split k\<close> reads the month in \<open>k\<close> characters.
\<close>

definition all_digits :: "string \<Rightarrow> bool" where
  "all_digits t = list_all (\<lambda>c. digit_val c \<noteq> None) t"

definition year_text :: "string \<Rightarrow> nat option" where
  "year_text t = (if length t = 4 \<and> all_digits t then Some (decimal t) else None)"

definition month_text :: "string \<Rightarrow> nat option" where
  "month_text t =
     (if (length t = 1 \<or> length t = 2) \<and> all_digits t \<and> 1 \<le> decimal t \<and> decimal t \<le> 12
      then Some (decimal t) else None)"

definition day_text :: "string \<Rightarrow> nat option" where
  "day_text t =
     (if (length t = 1 \<or> length t = 2) \<and> all_digits t \<and> 1 \<le> decimal t \<and> decimal t \<le> 31
      then Some (decimal t)
      else if length t = 2 \<and> hd t = CHR '' '' \<and> all_digits (tl t) \<and> 1 \<le> decimal (tl t)
      then Some (decimal (tl t)) else None)"

definition spec_lenient_split :: "nat \<Rightarrow> string \<Rightarrow> bool" where
  "spec_lenient_split k s =
     (case (year_text (take 4 s), month_text (take k (drop 4 s)), day_text (drop (4 + k) s)) of
        (Some y, Some m, Some d) \<Rightarrow> 1 \<le> y \<and> d \<le> days_in_month y m
      | _ \<Rightarrow> False)"

definition spec_lenient_date :: "string \<Rightarrow> bool" where
  "spec_lenient_date s = (spec_lenient_split 2 s \<or> spec_lenient_split 1 s)"



subsection \<open>Concrete inputs\<close>

definition example_settings :: AuroraVisionSettings where
  "example_settings =
     \<lparr>api_key = ''key'', user_id = ''user'', password = ''secret'', plant_id = ''1234''\<rparr>"

definition example_day :: pd_Timestamp where
  "example_day = \<lparr>ts_year = 2024, ts_month = 1, ts_day = 1\<rparr>"

definition example_payload :: json where
  "example_payload =
     JObject [(''result'',
       JArray [JObject [(''date'', JString ''20240101''), (''dailyProduction'', JInt 240)]])]"

text \<open>
  A vendor that answers the authentication path with \<open>auth_status\<close> and the token
  \<^verbatim>\<open>fresh\<close>, the first request of a run to any other path with \<open>first_status\<close>, and
  every later one with 200.
\<close>

definition vendor :: "nat \<Rightarrow> nat \<Rightarrow> request list \<Rightarrow> request \<Rightarrow> response" where
  "vendor auth_status first_status history req =
     (if req_url req = ''/api/rest/authenticate'' then
        \<lparr>res_status = auth_status, res_payload = Inr (JObject [(''result'', JString ''fresh'')])\<rparr>
      else if history = [] then \<lparr>res_status = first_status, res_payload = Inr example_payload\<rparr>
      else \<lparr>res_status = 200, res_payload = Inr example_payload\<rparr>)"

definition example_world :: "string option \<Rightarrow> nat \<Rightarrow> nat \<Rightarrow> world" where
  "example_world cached auth_status first_status =
     \<lparr>environ = Map.empty(''AURORA_ACCESS_TOKEN'' := cached),
      server = vendor auth_status first_status, trace = []\<rparr>"

section \<open>Properties\<close>

subsection \<open>Dates\<close>

lemma digit_val_less: "digit_val c = Some v \<Longrightarrow> v < 10"
  by (auto simp: digit_val_def split: if_splits)

lemma length_eight: "length s = 8 \<Longrightarrow> \<exists>a b c d e f g h. s = [a, b, c, d, e, f, g, h]"
  by (auto simp: length_Suc_conv eval_nat_numeral)

lemma days_in_month_le: "days_in_month y m \<le> 31"
  by (simp add: days_in_month_def)

text \<open>On eight digits that name a month and a day, the matcher's first match reads all of them.\<close>

lemma re_Ymd_first_match:
  assumes "digit_val a = Some a'" "digit_val b = Some b'" "digit_val c = Some c'"
    "digit_val d = Some d'" "digit_val e = Some e'" "digit_val f = Some f'"
    "digit_val g = Some g'" "digit_val h = Some h'"
    "1 \<le> 10 * e' + f'" "10 * e' + f' \<le> 12" "1 \<le> 10 * g' + h'" "10 * g' + h' \<le> 31"
  shows "\<exists>more. re_Ymd [a, b, c, d, e, f, g, h] =
           ((1000 * a' + 100 * b' + 10 * c' + d', 10 * e' + f', 10 * g' + h'), []) # more"
proof -
  have lt: "e' < 10" "f' < 10" "g' < 10" "h' < 10"
    using assms digit_val_less by blast+
  have Y: "re_Y [a, b, c, d, e, f, g, h] = [(1000 * a' + 100 * b' + 10 * c' + d', [e, f, g, h])]"
    using assms by (simp add: re_Y_def)
  have M: "\<exists>more. re_m [e, f, g, h] = (10 * e' + f', [g, h]) # more"
    using assms lt by (auto simp: re_m_def)
  have D: "\<exists>more. re_d [g, h] = (10 * g' + h', []) # more"
    using assms lt by (auto simp: re_d_def)
  from M D show ?thesis
    by (auto simp: re_Ymd_def Y)
qed

lemma eight_digits_values:
  assumes "eight_digits s"
  shows "\<exists>a b c d e f g h a' b' c' d' e' f' g' h'.
           s = [a, b, c, d, e, f, g, h] \<and>
           digit_val a = Some a' \<and> digit_val b = Some b' \<and> digit_val c = Some c' \<and>
           digit_val d = Some d' \<and> digit_val e = Some e' \<and> digit_val f = Some f' \<and>
           digit_val g = Some g' \<and> digit_val h = Some h' \<and>
           decimal (take 4 s) = 1000 * a' + 100 * b' + 10 * c' + d' \<and>
           decimal (take 2 (drop 4 s)) = 10 * e' + f' \<and> decimal (drop 6 s) = 10 * g' + h'"
proof -
  from assms obtain a b c d e f g h where s: "s = [a, b, c, d, e, f, g, h]"
    using length_eight unfolding eight_digits_def by blast
  from assms s obtain a' b' c' d' e' f' g' h' where
    dv: "digit_val a = Some a'" "digit_val b = Some b'" "digit_val c = Some c'"
    "digit_val d = Some d'" "digit_val e = Some e'" "digit_val f = Some f'"
    "digit_val g = Some g'" "digit_val h = Some h'"
    by (auto simp: eight_digits_def)
  have "decimal (take 4 s) = 1000 * a' + 100 * b' + 10 * c' + d'"
    "decimal (take 2 (drop 4 s)) = 10 * e' + f'" "decimal (drop 6 s) = 10 * g' + h'"
    using dv by (simp_all add: s decimal_def digit_of_def)
  with s dv show ?thesis by blast
qed

text \<open>A valid date string is parsed to the day it names.\<close>

lemma strptime_Ymd_valid:
  assumes "spec_valid_date s"
  shows "strptime_Ymd s = Inr (spec_date s None)"
proof -
  from assms have "eight_digits s" by (simp add: spec_valid_date_def)
  from eight_digits_values[OF this] obtain a b c d e f g h a' b' c' d' e' f' g' h' where
    s: "s = [a, b, c, d, e, f, g, h]" and
    dv: "digit_val a = Some a'" "digit_val b = Some b'" "digit_val c = Some c'"
    "digit_val d = Some d'" "digit_val e = Some e'" "digit_val f = Some f'"
    "digit_val g = Some g'" "digit_val h = Some h'" and
    dec: "decimal (take 4 s) = 1000 * a' + 100 * b' + 10 * c' + d'"
    "decimal (take 2 (drop 4 s)) = 10 * e' + f'" "decimal (drop 6 s) = 10 * g' + h'"
    by blast
  define y where "y = 1000 * a' + 100 * b' + 10 * c' + d'"
  define m where "m = 10 * e' + f'"
  define dd where "dd = 10 * g' + h'"
  from assms have rng: "1 \<le> y" "1 \<le> m" "m \<le> 12" "1 \<le> dd" "dd \<le> days_in_month y m"
    unfolding spec_valid_date_def dec y_def m_def dd_def by simp_all
  have "dd \<le> 31"
    using rng(5) days_in_month_le order_trans by blast
  with re_Ymd_first_match[OF dv] rng obtain more where "re_Ymd s = ((y, m, dd), []) # more"
    unfolding s y_def m_def dd_def by blast
  moreover have "spec_date s None = midnight y m dd None"
    by (simp add: spec_date_def dec y_def m_def dd_def)
  ultimately show ?thesis
    using rng by (simp add: strptime_Ymd_def midnight_def)
qed

text \<open>What an accepted string must have matched.\<close>

lemma strptime_Ymd_accepts:
  assumes "strptime_Ymd s = Inr t"
  shows "\<exists>y m d. ((y, m, d), []) \<in> set (re_Ymd s) \<and> 1 \<le> y \<and> d \<le> days_in_month y m"
proof (cases "re_Ymd s")
  case Nil
  with assms show ?thesis by (simp add: strptime_Ymd_def)
next
  case (Cons p more)
  obtain y m d rest where p: "p = ((y, m, d), rest)"
    by (metis prod.exhaust)
  from assms Cons p have "rest = []" "1 \<le> y" "d \<le> days_in_month y m"
    by (auto simp: strptime_Ymd_def split: if_splits)
  moreover have "((y, m, d), rest) \<in> set (re_Ymd s)"
    by (simp add: Cons p)
  ultimately show ?thesis by blast
qed

lemma re_d_long: "list_all (\<lambda>p. snd p \<noteq> []) (re_d (f # g # h # r))"
  by (simp add: re_d_def split: option.splits)

lemma re_m_digits:
  assumes "digit_val e = Some e'" "digit_val f = Some f'"
  shows "list_all
           (\<lambda>p. p = (10 * e' + f', r) \<and> 1 \<le> 10 * e' + f' \<and> 10 * e' + f' \<le> 12 \<or> snd p = f # r)
           (re_m (e # f # r))"
  using assms digit_val_less[OF assms(2)] by (simp add: re_m_def)

lemma re_d_digits:
  assumes "digit_val g = Some g'" "digit_val h = Some h'"
  shows "list_all (\<lambda>p. snd p = [] \<longrightarrow> fst p = 10 * g' + h' \<and> 1 \<le> 10 * g' + h') (re_d [g, h])"
proof -
  have "g \<noteq> CHR '' ''"
    using assms(1) by (auto simp: digit_val_def)
  with assms show ?thesis by (simp add: re_d_def)
qed

lemma re_Ymd_eight_digits:
  assumes "digit_val a = Some a'" "digit_val b = Some b'" "digit_val c = Some c'"
    "digit_val d = Some d'" "digit_val e = Some e'" "digit_val f = Some f'"
    "digit_val g = Some g'" "digit_val h = Some h'"
    and "((y, m, dd), []) \<in> set (re_Ymd [a, b, c, d, e, f, g, h])"
  shows "y = 1000 * a' + 100 * b' + 10 * c' + d' \<and> m = 10 * e' + f' \<and> dd = 10 * g' + h' \<and>
         1 \<le> m \<and> m \<le> 12 \<and> 1 \<le> dd"
proof -
  have Y: "re_Y [a, b, c, d, e, f, g, h] = [(1000 * a' + 100 * b' + 10 * c' + d', [e, f, g, h])]"
    using assms by (simp add: re_Y_def)
  from assms(9) obtain r2 where m: "(m, r2) \<in> set (re_m [e, f, g, h])"
    and d: "(dd, []) \<in> set (re_d r2)"
    and y: "y = 1000 * a' + 100 * b' + 10 * c' + d'"
    by (auto simp: re_Ymd_def Y)
  from m re_m_digits[OF assms(5,6), of "[g, h]"]
  have r2: "(r2 = [g, h] \<and> m = 10 * e' + f' \<and> 1 \<le> m \<and> m \<le> 12) \<or> r2 = [f, g, h]"
    by (auto simp: list_all_iff)
  have "r2 \<noteq> [f, g, h]"
    using d re_d_long[of f g h "[]"] by (auto simp: list_all_iff)
  with r2 have r2': "r2 = [g, h]" "m = 10 * e' + f'" "1 \<le> m" "m \<le> 12" by auto
  from d re_d_digits[OF assms(7,8)] have "dd = 10 * g' + h' \<and> 1 \<le> dd"
    unfolding r2' by (auto simp: list_all_iff)
  with y r2' show ?thesis by simp
qed

text \<open>On eight digits the code rejects exactly the strings that are not valid dates.\<close>

lemma strptime_Ymd_eight_digits:
  assumes "eight_digits s"
  shows "isl (strptime_Ymd s) = (\<not> spec_valid_date s)"
proof (cases "spec_valid_date s")
  case True
  then show ?thesis by (simp add: strptime_Ymd_valid)
next
  case False
  from eight_digits_values[OF assms] obtain a b c d e f g h a' b' c' d' e' f' g' h' where
    s: "s = [a, b, c, d, e, f, g, h]" and
    dv: "digit_val a = Some a'" "digit_val b = Some b'" "digit_val c = Some c'"
    "digit_val d = Some d'" "digit_val e = Some e'" "digit_val f = Some f'"
    "digit_val g = Some g'" "digit_val h = Some h'" and
    dec: "decimal (take 4 s) = 1000 * a' + 100 * b' + 10 * c' + d'"
    "decimal (take 2 (drop 4 s)) = 10 * e' + f'" "decimal (drop 6 s) = 10 * g' + h'"
    by blast
  have "strptime_Ymd s \<noteq> Inr t" for t
  proof
    assume "strptime_Ymd s = Inr t"
    then obtain y m dd where in_set: "((y, m, dd), []) \<in> set (re_Ymd s)"
      and ok: "1 \<le> y" "dd \<le> days_in_month y m"
      using strptime_Ymd_accepts by blast
    from re_Ymd_eight_digits[OF dv in_set[unfolded s]] ok have "spec_valid_date s"
      unfolding spec_valid_date_def dec using assms by simp
    with False show False by simp
  qed
  then have "isl (strptime_Ymd s)"
    by (cases "strptime_Ymd s") auto
  with False show ?thesis by simp
qed

text \<open>
  The strings the code accepts are exactly the dates with optional leading zeros: first,
  what each group of the expression can have read.
\<close>

lemma days_in_month_ge: "28 \<le> days_in_month y m"
  by (simp add: days_in_month_def)

lemma digit_val_space: "digit_val (CHR '' '') = None"
  by (simp add: digit_val_def)

lemma length_ge_four: "4 \<le> length s \<Longrightarrow> \<exists>a b c d r. s = a # b # c # d # r"
  by (cases s; cases "tl s"; cases "tl (tl s)"; cases "tl (tl (tl s))") auto

lemma re_Y_year_text:
  "re_Y s = (case year_text (take 4 s) of None \<Rightarrow> [] | Some y \<Rightarrow> [(y, drop 4 s)])"
proof (cases "4 \<le> length s")
  case True
  then obtain a b c d r where s: "s = a # b # c # d # r"
    using length_ge_four by blast
  show ?thesis
    by (cases "digit_val a"; cases "digit_val b"; cases "digit_val c"; cases "digit_val d")
      (simp_all add: s re_Y_def year_text_def all_digits_def decimal_def digit_of_def)
next
  case False
  then have "re_Y s = []"
    by (auto simp: re_Y_def split: list.splits)
  with False show ?thesis
    by (simp add: year_text_def)
qed

lemma re_d_texts: "list_all (\<lambda>p. snd p = [] \<longrightarrow> day_text r = Some (fst p)) (re_d r)"
  by (auto simp: re_d_def day_text_def all_digits_def decimal_def digit_of_def digit_val_space
      split: list.splits option.splits dest: digit_val_less)

lemma re_m_texts:
  "list_all (\<lambda>p. (month_text (take 2 r) = Some (fst p) \<and> snd p = drop 2 r \<and> 2 \<le> length r) \<or>
                 (month_text (take 1 r) = Some (fst p) \<and> snd p = drop 1 r \<and> 1 \<le> length r))
     (re_m r)"
proof (cases r)
  case Nil
  then show ?thesis by (simp add: re_m_def)
next
  case (Cons a r')
  show ?thesis
  proof (cases r')
    case Nil
    with Cons show ?thesis
      by (cases "digit_val a") (auto simp: re_m_def month_text_def all_digits_def decimal_def digit_of_def dest: digit_val_less)
  next
    case (Cons b r'')
    with \<open>r = a # r'\<close> show ?thesis
      by (cases "digit_val a"; cases "digit_val b")
        (auto simp: re_m_def month_text_def all_digits_def decimal_def digit_of_def dest: digit_val_less)
  qed
qed

lemma accepted_is_lenient:
  assumes "strptime_Ymd s = Inr t"
  shows "spec_lenient_date s"
proof -
  from strptime_Ymd_accepts[OF assms] obtain y m d where
    mem: "((y, m, d), []) \<in> set (re_Ymd s)" and y: "1 \<le> y" and d: "d \<le> days_in_month y m"
    by blast
  from mem obtain r1 r2 where Y: "(y, r1) \<in> set (re_Y s)" and M: "(m, r2) \<in> set (re_m r1)"
    and D: "(d, []) \<in> set (re_d r2)"
    by (auto simp: re_Ymd_def)
  from Y have yt: "year_text (take 4 s) = Some y" and r1: "r1 = drop 4 s"
    by (auto simp: re_Y_year_text split: option.splits)
  from M re_m_texts[of r1]
  have "(month_text (take 2 r1) = Some m \<and> r2 = drop 2 r1) \<or>
        (month_text (take 1 r1) = Some m \<and> r2 = drop 1 r1)"
    unfolding list_all_iff by fastforce
  then obtain k where k: "k = 1 \<or> k = 2"
    and mt: "month_text (take k r1) = Some m" and r2: "r2 = drop k r1"
    by blast
  from D re_d_texts[of r2] have dt: "day_text r2 = Some d"
    by (auto simp: list_all_iff)
  have "spec_lenient_split k s"
    using yt mt dt y d by (simp add: spec_lenient_split_def r1 r2 add.commute)
  with k show ?thesis
    by (auto simp: spec_lenient_date_def)
qed

text \<open>Conversely, the first match of the expression on such a string reads all of it.\<close>

lemma nine_le_days: "d \<le> 9 \<Longrightarrow> d \<le> days_in_month y m"
  using days_in_month_ge[of y m] by simp

lemma first_match_two:
  assumes "month_text [e] = Some m" "day_text [f] = Some d"
  shows "\<exists>more. concat (map (\<lambda>(m, r2). map (\<lambda>(d, r3). ((y, m, d), r3)) (re_d r2)) (re_m [e, f])) =
           ((y, m, d), []) # more"
  using assms
  by (cases "digit_val e"; cases "digit_val f")
    (auto simp: re_m_def re_d_def month_text_def day_text_def all_digits_def decimal_def digit_of_def
      split: if_splits)


lemma first_match_three_long_month:
  assumes "month_text [e, f] = Some m" "day_text [g] = Some d"
  shows "\<exists>more. concat (map (\<lambda>(m, r2). map (\<lambda>(d, r3). ((y, m, d), r3)) (re_d r2)) (re_m [e, f, g])) =
           ((y, m, d), []) # more \<and> d \<le> 9"
  using assms
  by (cases "digit_val e"; cases "digit_val f"; cases "digit_val g")
    (auto simp: re_m_def re_d_def month_text_def day_text_def all_digits_def decimal_def digit_of_def
      split: if_splits dest: digit_val_less)

lemma first_match_three_short_month:
  assumes "month_text [e] = Some m" "day_text [f, g] = Some d"
  shows "\<exists>m' d' more.
           concat (map (\<lambda>(m, r2). map (\<lambda>(d, r3). ((y, m, d), r3)) (re_d r2)) (re_m [e, f, g])) =
           ((y, m', d'), []) # more \<and> (m' = m \<and> d' = d \<or> d' \<le> 9)"
  using assms
  by (cases "digit_val e"; cases "digit_val f"; cases "digit_val g")
    (auto simp: re_m_def re_d_def month_text_def day_text_def all_digits_def decimal_def digit_of_def
      digit_val_space split: if_splits dest: digit_val_less)

lemma first_match_four:
  assumes "month_text [e, f] = Some m" "day_text [g, h] = Some d"
  shows "\<exists>more. concat (map (\<lambda>(m, r2). map (\<lambda>(d, r3). ((y, m, d), r3)) (re_d r2)) (re_m [e, f, g, h])) =
           ((y, m, d), []) # more"
  using assms
  by (cases "digit_val e"; cases "digit_val f"; cases "digit_val g"; cases "digit_val h")
    (auto simp: re_m_def re_d_def month_text_def day_text_def all_digits_def decimal_def digit_of_def
      digit_val_space split: if_splits dest: digit_val_less)

lemma month_text_length: "month_text t = Some m \<Longrightarrow> length t = 1 \<or> length t = 2"
  by (simp add: month_text_def split: if_splits)

lemma day_text_length: "day_text t = Some d \<Longrightarrow> length t = 1 \<or> length t = 2"
  by (auto simp: day_text_def split: if_splits)

lemma year_text_length: "year_text t = Some y \<Longrightarrow> length t = 4"
  by (simp add: year_text_def split: if_splits)

lemma first_match:
  assumes mt: "month_text (take k r) = Some m" and dt: "day_text (drop k r) = Some d"
    and k: "k = 1 \<or> k = 2" and cal: "d \<le> days_in_month y m"
  shows "\<exists>m' d' more.
           concat (map (\<lambda>(m, r2). map (\<lambda>(d, r3). ((y, m, d), r3)) (re_d r2)) (re_m r)) =
             ((y, m', d'), []) # more \<and> d' \<le> days_in_month y m'"
proof -
  from day_text_length[OF dt] have len: "length r = k + 1 \<or> length r = k + 2"
    by auto
  from k show ?thesis
  proof
    assume k1: "k = 1"
    from len k1 consider "length r = 2" | "length r = 3" by auto
    then show ?thesis
    proof cases
      case 1
      then obtain e f where r: "r = [e, f]"
        by (auto simp: length_Suc_conv eval_nat_numeral)
      from first_match_two[of e m f d y] mt dt cal show ?thesis
        by (auto simp: r k1)
    next
      case 2
      then obtain e f g where r: "r = [e, f, g]"
        by (auto simp: length_Suc_conv eval_nat_numeral)
      from first_match_three_short_month[of e m f g d y] mt dt obtain m' d' more where
        "concat (map (\<lambda>(m, r2). map (\<lambda>(d, r3). ((y, m, d), r3)) (re_d r2)) (re_m r)) =
           ((y, m', d'), []) # more" and "m' = m \<and> d' = d \<or> d' \<le> 9"
        by (auto simp: r k1)
      moreover from this(2) cal have "d' \<le> days_in_month y m'"
        using nine_le_days by blast
      ultimately show ?thesis by blast
    qed
  next
    assume k2: "k = 2"
    from len k2 consider "length r = 3" | "length r = 4" by auto
    then show ?thesis
    proof cases
      case 1
      then obtain e f g where r: "r = [e, f, g]"
        by (auto simp: length_Suc_conv eval_nat_numeral)
      from first_match_three_long_month[of e f m g d y] mt dt show ?thesis
        by (auto simp: r k2 nine_le_days)
    next
      case 2
      then obtain e f g h where r: "r = [e, f, g, h]"
        by (auto simp: length_Suc_conv eval_nat_numeral)
      from first_match_four[of e f m g h d y] mt dt cal show ?thesis
        by (auto simp: r k2)
    qed
  qed
qed

lemma lenient_split_accepted:
  assumes "spec_lenient_split k s" and k: "k = 1 \<or> k = 2"
  shows "\<exists>t. strptime_Ymd s = Inr t"
proof -
  from assms(1) obtain y m d where yt: "year_text (take 4 s) = Some y"
    and mt: "month_text (take k (drop 4 s)) = Some m"
    and dt: "day_text (drop (4 + k) s) = Some d"
    and y: "1 \<le> y" and cal: "d \<le> days_in_month y m"
    by (auto simp: spec_lenient_split_def split: option.splits)
  have dt': "day_text (drop k (drop 4 s)) = Some d"
    using dt by (simp add: add.commute)
  have "re_Ymd s =
      concat (map (\<lambda>(m, r2). map (\<lambda>(d, r3). ((y, m, d), r3)) (re_d r2)) (re_m (drop 4 s)))"
    by (simp add: re_Ymd_def re_Y_year_text yt)
  with first_match[OF mt dt' k cal] obtain m' d' more where
    "re_Ymd s = ((y, m', d'), []) # more" "d' \<le> days_in_month y m'"
    by auto
  with y show ?thesis
    by (simp add: strptime_Ymd_def)
qed

lemma strptime_Ymd_lenient: "isl (strptime_Ymd s) = (\<not> spec_lenient_date s)"
proof (cases "strptime_Ymd s")
  case (Inl e)
  then have "\<not> spec_lenient_date s"
    using lenient_split_accepted[of 1 s] lenient_split_accepted[of 2 s]
    by (auto simp: spec_lenient_date_def)
  with Inl show ?thesis by simp
next
  case (Inr t)
  then show ?thesis
    using accepted_is_lenient by simp
qed


text \<open>
  The dates with optional leading zeros have six to eight characters, contain the valid
  \<^verbatim>\<open>YYYYMMDD\<close> strings, and on eight digits are no more than those.
\<close>

lemma spec_lenient_date_length:
  assumes "spec_lenient_date s"
  shows "6 \<le> length s \<and> length s \<le> 8"
proof -
  from assms obtain k where k: "k = 1 \<or> k = 2" and sp: "spec_lenient_split k s"
    by (auto simp: spec_lenient_date_def)
  from sp obtain y m d where yt: "year_text (take 4 s) = Some y"
    and mt: "month_text (take k (drop 4 s)) = Some m"
    and dt: "day_text (drop (4 + k) s) = Some d"
    by (auto simp: spec_lenient_split_def split: option.splits)
  from year_text_length[OF yt] month_text_length[OF mt] day_text_length[OF dt] k
  show ?thesis by auto
qed

lemma spec_valid_date_lenient: "spec_valid_date s \<Longrightarrow> spec_lenient_date s"
  using strptime_Ymd_lenient[of s] by (simp add: strptime_Ymd_valid)

lemma spec_lenient_date_eight_digits: "eight_digits s \<Longrightarrow> spec_lenient_date s = spec_valid_date s"
  using strptime_Ymd_lenient[of s] strptime_Ymd_eight_digits[of s] by simp

subsection \<open>The comprehension\<close>

lemma records_of_append:
  "records_of (xs @ ys) =
     (case records_of xs of
        Inl e \<Rightarrow> Inl e
      | Inr rs \<Rightarrow> (case records_of ys of Inl e \<Rightarrow> Inl e | Inr rs' \<Rightarrow> Inr (rs @ rs')))"
  by (induction xs) (auto split: sum.splits)


lemma records_of_map:
  "(\<And>entry. entry \<in> set es \<Longrightarrow> process_entry entry = Inr (f entry)) \<Longrightarrow>
   records_of es = Inr (map f es)"
  by (induction es) auto

lemma process_aurora_data_array:
  "map_of kvs ''result'' = Some (JArray es) \<Longrightarrow> process_aurora_data (JObject kvs) = records_of es"
  by (simp add: process_aurora_data_def py_get_def dict_get_def py_iter_def)

lemma spec_date_tz: "(spec_date s None)\<lparr>dt_tzinfo := Some UTC\<rparr> = spec_date s (Some UTC)"
  by (simp add: spec_date_def midnight_def)

lemma process_entry_well_formed:
  assumes "spec_well_formed entry"
  shows "process_entry entry = Inr (spec_record entry)"
proof -
  from assms obtain kvs where e: "entry = JObject kvs"
    by (cases entry) (simp_all add: spec_well_formed_def)
  from assms e obtain x where x: "map_of kvs ''date'' = Some x"
    by (cases "map_of kvs ''date''") (simp_all add: spec_well_formed_def)
  from assms e x obtain s where d: "map_of kvs ''date'' = Some (JString s)"
    by (cases x) (simp_all add: spec_well_formed_def)
  from assms e d have v: "spec_valid_date s"
    and p: "spec_production_ok (map_of kvs ''dailyProduction'')"
    by (simp_all add: spec_well_formed_def)
  have t: "strptime (JString s) = Inr (spec_date s None)"
    using v by (simp add: strptime_def strptime_Ymd_valid)
  have q: "div_24 (dict_get kvs ''dailyProduction'' (JInt 0)) =
             Inr (spec_power_kw (map_of kvs ''dailyProduction''))"
    using p by (auto simp: spec_production_ok_def spec_power_kw_def dict_get_def div_24_def
        split: option.splits json.splits)
  show ?thesis
    by (simp add: process_entry_def e py_getitem_def d t py_get_def q spec_date_tz spec_record_def)
qed



subsection \<open>The authenticator\<close>

text \<open>
  \<^verbatim>\<open>base64\<close> is not among the names the module binds, so every call ends at line 36,
  before any request is sent.
\<close>

lemma authenticate_aurora_raises:
  "authenticate_aurora settings w =
     (Inl (NameError ''base64''), w\<lparr>trace := trace w @ [Call_authenticate_aurora]\<rparr>)"
  by (simp add: authenticate_aurora_def load_global_def module_globals_def)

section \<open>The claims\<close>

subsection \<open>The transformation\<close>

text \<open>
  Claim C2: for the payload \<^verbatim>\<open>{"result": [{"date": "20240101", "dailyProduction": 240}]}\<close>
  the transformation returns a table of exactly one record, whose timestamp is
  2024-01-01T00:00:00 UTC and whose \<open>power_kw\<close> is 10 (the daily production over 24).
\<close>

theorem process_aurora_data_example:
  "process_aurora_data
     (JObject [(''result'',
        JArray [JObject [(''date'', JString ''20240101''), (''dailyProduction'', JInt 240)]])]) =
   Inr [\<lparr>timestamp = \<lparr>dt_year = 2024, dt_month = 1, dt_day = 1, dt_hour = 0, dt_minute = 0,
                        dt_second = 0, dt_tzinfo = Some UTC\<rparr>,
         power_kw = 10\<rparr>]"
  by code_simp




text \<open>
  Claim C5: an entry with a valid date and no \<^verbatim>\<open>dailyProduction\<close> field gives a record
  with \<open>power_kw = 0\<close>; the row is neither dropped nor a failure. Wherever the entry stands
  in the array, the table has the rows of the entries before it, this row, and the rows of
  the entries after it.
\<close>

theorem missing_production_is_zero:
  assumes "map_of kvs ''result'' = Some (JArray (before @ JObject entry # after))"
    and "map_of entry ''date'' = Some (JString s)" and "spec_valid_date s"
    and "map_of entry ''dailyProduction'' = None"
    and "records_of before = Inr rs" and "records_of after = Inr rs'"
  shows "process_aurora_data (JObject kvs) =
           Inr (rs @ \<lparr>timestamp = spec_date s (Some UTC), power_kw = 0\<rparr> # rs')"
proof -
  have wf: "spec_well_formed (JObject entry)"
    using assms(2-4) by (simp add: spec_well_formed_def spec_production_ok_def)
  have "process_entry (JObject entry) = Inr \<lparr>timestamp = spec_date s (Some UTC), power_kw = 0\<rparr>"
    using process_entry_well_formed[OF wf] assms(2,4)
    by (simp add: spec_record_def spec_power_kw_def)
  then have "records_of (before @ JObject entry # after) =
      Inr (rs @ \<lparr>timestamp = spec_date s (Some UTC), power_kw = 0\<rparr> # rs')"
    using assms(5,6) by (simp add: records_of_append)
  then show ?thesis
    using assms(1) by (simp add: process_aurora_data_array)
qed

theorem missing_production_is_zero_witness:
  "map_of [(''result'', JArray ([] @ JObject [(''date'', JString ''20240102'')] # []))] ''result'' =
     Some (JArray ([] @ JObject [(''date'', JString ''20240102'')] # [])) \<and>
   map_of [(''date'', JString ''20240102'')] ''date'' = Some (JString ''20240102'') \<and>
   spec_valid_date ''20240102'' \<and>
   map_of [(''date'', JString ''20240102'')] ''dailyProduction'' = None \<and>
   records_of [] = Inr [] \<and>
   process_aurora_data
     (JObject [(''result'', JArray ([] @ JObject [(''date'', JString ''20240102'')] # []))]) =
     Inr ([] @ \<lparr>timestamp = spec_date ''20240102'' (Some UTC), power_kw = 0\<rparr> # [])"
proof -
  let ?entry = "[(''date'', JString ''20240102'')]"
  have h1: "map_of [(''result'', JArray ([] @ JObject ?entry # []))] ''result'' =
              Some (JArray ([] @ JObject ?entry # []))"
    by simp
  have h2: "map_of ?entry ''date'' = Some (JString ''20240102'')"
    by simp
  have h3: "spec_valid_date ''20240102''"
    by code_simp
  have h4: "map_of ?entry ''dailyProduction'' = None"
    by simp
  have h5: "records_of [] = Inr []"
    by simp
  show ?thesis
    using h1 h2 h3 h4 h5 missing_production_is_zero[OF h1 h2 h3 h4 h5 h5] by blast
qed

text \<open>
  Claim C6: when the \<^verbatim>\<open>result\<close> sequence of the payload has N well-formed entries, the
  table has exactly N rows, one per entry and in the order of the entries: the
  transformation maps the entry list to its records.
\<close>

theorem process_aurora_data_order:
  assumes "map_of kvs ''result'' = Some (JArray es)"
    and "\<forall>entry \<in> set es. spec_well_formed entry"
  shows "process_aurora_data (JObject kvs) = Inr (map spec_record es)"
proof -
  have "records_of es = Inr (map spec_record es)"
    using assms(2) by (intro records_of_map process_entry_well_formed) simp
  then show ?thesis
    using assms(1) by (simp add: process_aurora_data_array)
qed

theorem process_aurora_data_order_witness:
  "map_of [(''result'', JArray [JObject [(''date'', JString ''20240103''), (''dailyProduction'', JInt 48)],
                                JObject [(''date'', JString ''20240101'')]])] ''result'' =
     Some (JArray [JObject [(''date'', JString ''20240103''), (''dailyProduction'', JInt 48)],
                   JObject [(''date'', JString ''20240101'')]]) \<and>
   spec_well_formed (JObject [(''date'', JString ''20240103''), (''dailyProduction'', JInt 48)]) \<and>
   spec_well_formed (JObject [(''date'', JString ''20240101'')]) \<and>
   process_aurora_data
     (JObject [(''result'', JArray [JObject [(''date'', JString ''20240103''), (''dailyProduction'', JInt 48)],
                                    JObject [(''date'', JString ''20240101'')]])]) =
     Inr [\<lparr>timestamp = midnight 2024 1 3 (Some UTC), power_kw = 2\<rparr>,
          \<lparr>timestamp = midnight 2024 1 1 (Some UTC), power_kw = 0\<rparr>]"
proof -
  let ?e1 = "JObject [(''date'', JString ''20240103''), (''dailyProduction'', JInt 48)]"
  let ?e2 = "JObject [(''date'', JString ''20240101'')]"
  have h1: "map_of [(''result'', JArray [?e1, ?e2])] ''result'' = Some (JArray [?e1, ?e2])"
    by simp
  have w1: "spec_well_formed ?e1"
    by code_simp
  have w2: "spec_well_formed ?e2"
    by code_simp
  have h2: "\<forall>entry \<in> set [?e1, ?e2]. spec_well_formed entry"
    using w1 w2 by simp
  have r1: "spec_record ?e1 = \<lparr>timestamp = midnight 2024 1 3 (Some UTC), power_kw = 2\<rparr>"
    by code_simp
  have r2: "spec_record ?e2 = \<lparr>timestamp = midnight 2024 1 1 (Some UTC), power_kw = 0\<rparr>"
    by code_simp
  show ?thesis
    using h1 w1 w2 process_aurora_data_order[OF h1 h2] by (simp add: r1 r2)
qed

text \<open>
  Claim C10: for a payload that is a JSON object with no \<^verbatim>\<open>result\<close> field, the
  transformation returns the empty table; it does not fail.
\<close>

theorem missing_result_empty_table:
  "map_of kvs ''result'' = None \<Longrightarrow> process_aurora_data (JObject kvs) = Inr []"
  by (simp add: process_aurora_data_def py_get_def dict_get_def py_iter_def)

theorem missing_result_empty_table_witness:
  "map_of [(''error'', JString ''no data'')] ''result'' = None \<and>
   process_aurora_data (JObject [(''error'', JString ''no data'')]) = Inr []"
proof -
  have h: "map_of [(''error'', JString ''no data'')] ''result'' = None"
    by simp
  show ?thesis
    using h missing_result_empty_table[OF h] by simp
qed

subsection \<open>The fetcher\<close>

text \<open>
  Claim C7: when a token is cached (the slot holds a non-empty string) and the production
  query is answered with 200, the call sends exactly one request, the production query
  with the cached token, and never enters the authenticator: that request is the only event
  the call adds to the trace.
\<close>

theorem cached_token_single_request:
  assumes "environ w ''AURORA_ACCESS_TOKEN'' = Some token" and "token \<noteq> []"
    and "res_status (server w (requests_of (trace w)) (production_query settings ts token)) = 200"
  shows "trace (snd (get_aurora_vision_data settings ts w)) =
           trace w @ [Http (production_query settings ts token)]"
  using assms
  by (simp add: get_aurora_vision_data_def http_round_trip_def split: sum.splits)

theorem cached_token_single_request_witness:
  "environ (example_world (Some ''cached'') 200 200) ''AURORA_ACCESS_TOKEN'' = Some ''cached'' \<and>
   ''cached'' \<noteq> [] \<and>
   res_status (server (example_world (Some ''cached'') 200 200)
                 (requests_of (trace (example_world (Some ''cached'') 200 200)))
                 (production_query example_settings example_day ''cached'')) = 200 \<and>
   trace (snd (get_aurora_vision_data example_settings example_day
                 (example_world (Some ''cached'') 200 200))) =
     trace (example_world (Some ''cached'') 200 200) @
       [Http (production_query example_settings example_day ''cached'')]"
proof -
  let ?w = "example_world (Some ''cached'') 200 200"
  have h1: "environ ?w ''AURORA_ACCESS_TOKEN'' = Some ''cached''"
    by (simp add: example_world_def)
  have h2: "''cached'' \<noteq> []"
    by simp
  have h3: "res_status (server ?w (requests_of (trace ?w))
              (production_query example_settings example_day ''cached'')) = 200"
    by (simp add: example_world_def vendor_def production_query_def Let_def)
  show ?thesis
    using h1 h2 h3 cached_token_single_request[OF h1 h2 h3] by blast
qed

text \<open>
  Claim C9: when the token slot holds the empty string, the call treats the token as
  absent and enters the authenticator before any production query: the first event it adds
  to the trace is the authenticator call, and its result and its trace are those of the
  call made with the slot unset. (The test is \<^verbatim>\<open>not token\<close>, on truthiness.)
\<close>

theorem empty_token_calls_authenticator:
  assumes "environ w ''AURORA_ACCESS_TOKEN'' = Some []"
  shows "(\<exists>evs. trace (snd (get_aurora_vision_data settings ts w)) =
                  trace w @ Call_authenticate_aurora # evs) \<and>
         fst (get_aurora_vision_data settings ts w) =
           fst (get_aurora_vision_data settings ts
                  (w\<lparr>environ := (environ w)(''AURORA_ACCESS_TOKEN'' := None)\<rparr>)) \<and>
         trace (snd (get_aurora_vision_data settings ts w)) =
           trace (snd (get_aurora_vision_data settings ts
                         (w\<lparr>environ := (environ w)(''AURORA_ACCESS_TOKEN'' := None)\<rparr>)))"
  using assms by (simp add: get_aurora_vision_data_def authenticate_aurora_raises)

theorem empty_token_calls_authenticator_witness:
  "environ (example_world (Some []) 200 200) ''AURORA_ACCESS_TOKEN'' = Some [] \<and>
   (\<exists>evs. trace (snd (get_aurora_vision_data example_settings example_day
                         (example_world (Some []) 200 200))) =
           trace (example_world (Some []) 200 200) @ Call_authenticate_aurora # evs)"
proof -
  let ?w = "example_world (Some []) 200 200"
  have h: "environ ?w ''AURORA_ACCESS_TOKEN'' = Some []"
    by (simp add: example_world_def)
  show ?thesis
    using h empty_token_calls_authenticator[OF h, of example_settings example_day] by blast
qed

text \<open>
  Claim C1 says that after a first answer of 401 the call authenticates again and sends
  the request once more with the new token. At a stale cached token and a vendor that
  answers the first query with 401 and would then issue a token and answer 200, the code
  enters the authenticator, which raises NameError at its use of \<^verbatim>\<open>base64\<close>: the call
  ends with that exception after a single request.
\<close>

theorem retry_after_401_raises_NameError:
  "res_status (server (example_world (Some ''stale'') 200 401) []
                 (production_query example_settings example_day ''stale'')) = 401 \<and>
   get_aurora_vision_data example_settings example_day (example_world (Some ''stale'') 200 401) =
     (Inl (NameError ''base64''),
      (example_world (Some ''stale'') 200 401)
        \<lparr>trace := [Http (production_query example_settings example_day ''stale''),
                   Call_authenticate_aurora]\<rparr>)"
  by (simp add: get_aurora_vision_data_def http_round_trip_def authenticate_aurora_def
      load_global_def module_globals_def example_world_def vendor_def production_query_def Let_def)

subsection \<open>The authenticator at concrete inputs\<close>

text \<open>
  Claim C3 says that on an answer of 200 with a \<^verbatim>\<open>result\<close> field the authenticator
  returns the token and stores it. At a vendor that answers the authentication request
  with 200 and \<^verbatim>\<open>{"result": "fresh"}\<close>, the code raises NameError before it sends the
  request, returns no token and leaves the slot unset.
\<close>

theorem authenticate_aurora_200_raises_NameError:
  "server (example_world None 200 200) [] (authenticate_request example_settings) =
     \<lparr>res_status = 200, res_payload = Inr (JObject [(''result'', JString ''fresh'')])\<rparr> \<and>
   authenticate_aurora example_settings (example_world None 200 200) =
     (Inl (NameError ''base64''),
      (example_world None 200 200)\<lparr>trace := [Call_authenticate_aurora]\<rparr>) \<and>
   environ (snd (authenticate_aurora example_settings (example_world None 200 200)))
     ''AURORA_ACCESS_TOKEN'' = None"
  by (simp add: authenticate_aurora_def load_global_def module_globals_def example_world_def
      vendor_def authenticate_request_def)

text \<open>
  Claim C8 says that on an answer other than 200 the authenticator fails with an error
  that carries the status. At a vendor that answers the authentication request with 403,
  the code raises NameError before it sends the request: the exception is not the one of
  line 42 and no status reaches the caller. The slot keeps its value.
\<close>

theorem authenticate_aurora_403_raises_NameError:
  "res_status (server (example_world (Some ''old'') 403 200) []
                 (authenticate_request example_settings)) = 403 \<and>
   fst (authenticate_aurora example_settings (example_world (Some ''old'') 403 200)) =
     Inl (NameError ''base64'') \<and>
   requests_of (trace (snd (authenticate_aurora example_settings
                              (example_world (Some ''old'') 403 200)))) = [] \<and>
   environ (snd (authenticate_aurora example_settings (example_world (Some ''old'') 403 200)))
     ''AURORA_ACCESS_TOKEN'' = Some ''old''"
  by (simp add: authenticate_aurora_def load_global_def module_globals_def example_world_def
      vendor_def authenticate_request_def)

end
